theory Spec2Isabelle
  imports Main "HOL-Library.Sublist"
begin

section \<open>ConsumptieTracker: the ledger behind \<open>src/app/index.tsx\<close>\<close>

text \<open>
  The development embeds the ledger logic of the four screens of the app: the price of a
  new item (\<open>AddScreen\<close>), the overview filter and the settlement of selected items
  (\<open>OverviewScreen\<close>, \<open>createPayment\<close>), totals, CSV export and removal of a payment batch
  (\<open>PaymentsScreen\<close>) and the saving of settings (\<open>SettingsScreen\<close>).

  Conventions of the embedding:
  \<^item> a TypeScript \<open>number\<close> holding an amount of cents is an \<open>int\<close>: the model covers the
    integral amounts on which the arithmetic of the source is exact;
  \<^item> an optional field \<open>f?: string\<close> is a \<open>string option\<close>, \<open>None\<close> for \<open>undefined\<close>;
  \<^item> the results of \<open>Crypto.randomUUID()\<close> and of \<open>nowISO()\<close> are inputs of the operation
    that asks for them; an operation that reads the clock several times takes a clock
    \<open>nat \<Rightarrow> string\<close> whose \<open>k\<close>-th value is the result of its \<open>k\<close>-th call of \<open>nowISO()\<close>;
  \<^item> the collections kept under the storage keys are typed values; a key that is missing
    or does not parse is \<open>None\<close>;
  \<^item> functions of the language's library that the source only calls
    (\<open>String.prototype.toLowerCase\<close>, \<open>Date.prototype.getTime\<close>) are parameters of the
    operations that call them.
\<close>

subsection \<open>Types\<close>

datatype ItemType = Bier | Fris | Snoep

text \<open>The string behind each member of the union type \<open>'Bier' | 'Fris' | 'Snoep'\<close>.\<close>

fun ItemType_string :: "ItemType \<Rightarrow> string" where
  "ItemType_string Bier = ''Bier''"
| "ItemType_string Fris = ''Fris''"
| "ItemType_string Snoep = ''Snoep''"

record Item =
  uuid :: string
  type :: ItemType
  date :: string
  priceCents :: int
  userLabel :: "string option"
  paidAt :: "string option"
  paymentId :: "string option"

record Settings =
  basePriceCents :: int
  currencyCode :: string

text \<open>The fields \<open>id\<close> and \<open>note\<close> of \<open>PaymentBatch\<close> carry a suffix in the model.\<close>

record PaymentBatch =
  id_b :: string
  createdAt :: string
  note_b :: "string option"

subsection \<open>Helpers\<close>

text \<open>
  \<open>loadJSON(key, fallback)\<close>: the fallback when the key holds nothing or what it holds does
  not parse, the stored value otherwise.
\<close>

definition loadJSON :: "'a option \<Rightarrow> 'a \<Rightarrow> 'a" where
  "loadJSON raw fallback = (case raw of None \<Rightarrow> fallback | Some v \<Rightarrow> v)"

text \<open>JavaScript truthiness of an optional string: \<open>undefined\<close> and \<open>''\<close> are falsy.\<close>

definition truthy :: "string option \<Rightarrow> bool" where
  "truthy v = (case v of None \<Rightarrow> False | Some s \<Rightarrow> s \<noteq> [])"

text \<open>\<open>v || ''\<close> and \<open>v ?? ''\<close> on an optional string: both give \<open>''\<close> for \<open>undefined\<close> and for \<open>''\<close>.\<close>

definition or_empty :: "string option \<Rightarrow> string" where
  "or_empty v = (case v of None \<Rightarrow> [] | Some s \<Rightarrow> (if s \<noteq> [] then s else []))"

definition nullish_empty :: "string option \<Rightarrow> string" where
  "nullish_empty v = (case v of None \<Rightarrow> [] | Some s \<Rightarrow> s)"

subsection \<open>AddScreen\<close>

definition AddScreen_priceCents :: "ItemType \<Rightarrow> Settings \<Rightarrow> int" where
  "AddScreen_priceCents ty settings =
     (if ty = Bier then basePriceCents settings * 2 else basePriceCents settings)"

text \<open>
  \<open>add\<close>: the new item goes to the front of the collection. \<open>newUuid\<close> is the result of
  \<open>Crypto.randomUUID()\<close>, \<open>now\<close> of \<open>nowISO()\<close>; the label is the text of the input field,
  \<open>''\<close> when nothing was typed.
\<close>

definition AddScreen_add ::
  "string \<Rightarrow> string \<Rightarrow> ItemType \<Rightarrow> string \<Rightarrow> Settings \<Rightarrow> Item list \<Rightarrow> Item list" where
  "AddScreen_add newUuid now ty label settings items =
     \<lparr>uuid = newUuid, type = ty, date = now,
      priceCents = AddScreen_priceCents ty settings,
      userLabel = Some label, paidAt = None, paymentId = None\<rparr> # items"

subsection \<open>OverviewScreen\<close>

text \<open>\<open>s.includes(t)\<close>: \<open>t\<close> occurs in \<open>s\<close> as a block of consecutive characters.\<close>

fun includes_str :: "string \<Rightarrow> string \<Rightarrow> bool" where
  "includes_str [] t = (t = [])"
| "includes_str (c # s) t = (prefix t (c # s) \<or> includes_str s t)"

text \<open>
  \<open>sorted\<close>: newest first. \<open>getTime\<close> stands for \<open>new Date(d).getTime()\<close>; the sort of the
  source is stable, and so is \<open>sort_key\<close>.
\<close>

definition OverviewScreen_sorted :: "(string \<Rightarrow> int) \<Rightarrow> Item list \<Rightarrow> Item list" where
  "OverviewScreen_sorted getTime items = sort_key (\<lambda>it. - getTime (date it)) items"

text \<open>
  \<open>filtered\<close>. \<open>toLowerCase\<close> stands for \<open>String.prototype.toLowerCase\<close>, a function of the
  language's library and not of the source: the filter takes it as it is.
\<close>

definition filtered ::
  "(string \<Rightarrow> string) \<Rightarrow> Item list \<Rightarrow> bool \<Rightarrow> string \<Rightarrow> Item list" where
  "filtered toLowerCase srt onlyUnpaid search =
     filter (\<lambda>it.
       (\<not> onlyUnpaid \<or> \<not> truthy (paidAt it)) \<and>
       (search = [] \<or>
        includes_str (toLowerCase (or_empty (userLabel it))) (toLowerCase search) \<or>
        includes_str (toLowerCase (ItemType_string (type it))) (toLowerCase search))) srt"

text \<open>
  \<open>selected\<close> is a \<open>Record<string, boolean>\<close>; a key that was never toggled reads
  \<open>undefined\<close>, which is falsy.
\<close>

definition selectedItems :: "Item list \<Rightarrow> (string \<rightharpoonup> bool) \<Rightarrow> Item list" where
  "selectedItems filt selected = filter (\<lambda>it. selected (uuid it) = Some True) filt"

subsection \<open>createPayment\<close>

text \<open>
  The \<open>map\<close> that computes \<open>updated\<close>. \<open>sel.find(s => s.uuid === it.uuid)\<close> gives an item
  (truthy) or \<open>undefined\<close>. Each item that is found gets the result of its own call of
  \<open>nowISO()\<close>: \<open>k\<close> counts the calls made so far.
\<close>

fun createPayment_updated ::
  "(nat \<Rightarrow> string) \<Rightarrow> nat \<Rightarrow> Item list \<Rightarrow> string \<Rightarrow> Item list \<Rightarrow> Item list" where
  "createPayment_updated clock k sel newId [] = []"
| "createPayment_updated clock k sel newId (it # its) =
     (if find (\<lambda>s. uuid s = uuid it) sel \<noteq> None
      then it\<lparr>paidAt := Some (clock k), paymentId := Some newId\<rparr>
             # createPayment_updated clock (Suc k) sel newId its
      else it # createPayment_updated clock k sel newId its)"

text \<open>
  \<open>createPayment(sel, ctx)\<close>: \<open>newId\<close> is the result of \<open>Crypto.randomUUID()\<close>, \<open>clock 0\<close> the
  call of \<open>nowISO()\<close> for the batch, \<open>stored\<close> what the key of the payments holds. The
  result is the batch collection that is saved and the item collection given to
  \<open>setItems\<close>.
\<close>

definition createPayment ::
  "string \<Rightarrow> (nat \<Rightarrow> string) \<Rightarrow> Item list \<Rightarrow> PaymentBatch list option \<Rightarrow> Item list
     \<Rightarrow> PaymentBatch list \<times> Item list" where
  "createPayment newId clock sel stored items =
     (let batch = \<lparr>id_b = newId, createdAt = clock 0, note_b = None\<rparr>;
          payments = loadJSON stored []
      in (batch # payments, createPayment_updated clock 1 sel newId items))"

subsection \<open>PaymentsScreen\<close>

definition totalFor :: "PaymentBatch \<Rightarrow> Item list \<Rightarrow> int" where
  "totalFor p items =
     foldl (\<lambda>a b. a + priceCents b) 0 (filter (\<lambda>it. paymentId it = Some (id_b p)) items)"

text \<open>\<open>String(n)\<close> for an integral \<open>n\<close>: the decimal digits, after a minus sign below zero.\<close>

definition digit_char :: "nat \<Rightarrow> char" where
  "digit_char d = char_of (48 + d)"

fun digits :: "nat \<Rightarrow> string" where
  "digits n = (if n < 10 then [digit_char n] else digits (n div 10) @ [digit_char (n mod 10)])"

declare digits.simps [simp del]

definition String_number :: "int \<Rightarrow> string" where
  "String_number n = (if n < 0 then CHR ''-'' # digits (nat (- n)) else digits (nat n))"

text \<open>\<open>xs.join(sep)\<close> on an array of strings.\<close>

fun join :: "string \<Rightarrow> string list \<Rightarrow> string" where
  "join sep [] = []"
| "join sep [x] = x"
| "join sep (x # y # ys) = x @ sep @ join sep (y # ys)"

text \<open>\<open>shareCSV\<close>: the array \<open>rows\<close>, and the message handed to \<open>Share.share\<close>.\<close>

definition shareCSV_rows :: "PaymentBatch \<Rightarrow> Item list \<Rightarrow> string list" where
  "shareCSV_rows p items =
     ''type,prijs_cents,datum,user,betaald_op,batch_id'' #
     map (\<lambda>it. join '','' [ItemType_string (type it), String_number (priceCents it), date it,
                           nullish_empty (userLabel it), nullish_empty (paidAt it), id_b p])
         (filter (\<lambda>it. paymentId it = Some (id_b p)) items)"

definition shareCSV :: "PaymentBatch \<Rightarrow> Item list \<Rightarrow> string" where
  "shareCSV p items = join [CHR 0x0A] (shareCSV_rows p items)"

text \<open>
  \<open>remove\<close>: the item collection that is saved and the batch collection given to
  \<open>setPayments\<close>.
\<close>

definition remove ::
  "PaymentBatch \<Rightarrow> Item list \<Rightarrow> PaymentBatch list \<Rightarrow> Item list \<times> PaymentBatch list" where
  "remove p items payments =
     (map (\<lambda>it. if paymentId it = Some (id_b p)
                then it\<lparr>paymentId := None, paidAt := None\<rparr> else it) items,
      filter (\<lambda>x. id_b x \<noteq> id_b p) payments)"

text \<open>
  A visit of the payments screen in which \<open>remove\<close> is called on several batches in turn.
  The hook \<open>useItems\<close> of the screen loads the items once, when the screen is mounted, and
  \<open>remove\<close> never calls \<open>setItems\<close>: every call computes the collection that it saves from
  the items \<open>mounted\<close> at that time, whatever an earlier call has saved, while \<open>payments\<close>
  follows \<open>setPayments\<close>. The pair is what the key of the items holds and the payments.
\<close>

fun PaymentsScreen_visit ::
  "PaymentBatch list \<Rightarrow> Item list \<Rightarrow> Item list \<times> PaymentBatch list
     \<Rightarrow> Item list \<times> PaymentBatch list" where
  "PaymentsScreen_visit [] mounted (stored, payments) = (stored, payments)"
| "PaymentsScreen_visit (p # rest) mounted (stored, payments) =
     PaymentsScreen_visit rest mounted (remove p mounted payments)"

subsection \<open>SettingsScreen\<close>

text \<open>
  \<open>save\<close>: \<open>cents\<close> is the value of \<open>Math.round(parseFloat(base.replace(',','.')) * 100)\<close>,
  \<open>None\<close> when it is \<open>NaN\<close>. An invalid price leaves the settings as they are (the source
  shows an alert); an empty currency code becomes \<open>EUR\<close>.
\<close>

definition save :: "int option \<Rightarrow> string \<Rightarrow> Settings \<Rightarrow> Settings" where
  "save cents code settings =
     (case cents of
        None \<Rightarrow> settings
      | Some c \<Rightarrow> if c \<le> 0 then settings
                  else \<lparr>basePriceCents = c, currencyCode = (if code \<noteq> [] then code else ''EUR'')\<rparr>)"

subsection \<open>The ledger as a state machine\<close>

text \<open>
  What the three storage keys hold, and the user actions on it: saving a new item,
  pressing Afrekenen with an overview filter and a selection, a visit of the payments
  screen that removes batches, saving the settings. Each action carries what the
  environment answers to it (the fresh identifier, the clock). A screen is mounted
  again, and loads what is stored, each time its tab is opened; the screens of the first
  two actions keep their items in step with the store through \<open>setItems\<close>.
\<close>

record Ledger =
  items :: "Item list"
  payments :: "PaymentBatch list"
  settings :: Settings

definition initial :: Ledger where
  "initial = \<lparr>items = [], payments = [],
              settings = \<lparr>basePriceCents = 70, currencyCode = ''EUR''\<rparr>\<rparr>"

text \<open>
  The button Afrekenen: its property \<open>disabled\<close> is \<open>selectedItems.length === 0\<close>, and
  \<open>PrimaryButton\<close> shows a disabled button in another colour. A disabled button does not
  call \<open>onPress\<close>: then the press does not reach \<open>createPayment\<close>.
\<close>

definition Afrekenen_disabled :: "Item list \<Rightarrow> bool" where
  "Afrekenen_disabled sel = (length sel = 0)"


definition Afrekenen_onPress ::
  "(string \<Rightarrow> int) \<Rightarrow> (string \<Rightarrow> string) \<Rightarrow> bool \<Rightarrow> string \<Rightarrow> (string \<rightharpoonup> bool)
     \<Rightarrow> string \<Rightarrow> (nat \<Rightarrow> string) \<Rightarrow> Ledger \<Rightarrow> Ledger" where
  "Afrekenen_onPress getTime toLowerCase onlyUnpaid search selected newId clock L =
     (let sel = selectedItems
                  (filtered toLowerCase (OverviewScreen_sorted getTime (items L))
                     onlyUnpaid search) selected
      in if Afrekenen_disabled sel then L
         else (case createPayment newId clock sel (Some (payments L)) (items L) of
                 (ps, its) \<Rightarrow> L\<lparr>items := its, payments := ps\<rparr>))"

datatype Action =
    Add string string ItemType string
  | Afrekenen bool string "string \<rightharpoonup> bool" string "nat \<Rightarrow> string"
  | Betalingen "PaymentBatch list"
  | Opslaan "int option" string

fun step :: "(string \<Rightarrow> int) \<Rightarrow> (string \<Rightarrow> string) \<Rightarrow> Action \<Rightarrow> Ledger \<Rightarrow> Ledger" where
  "step getTime toLowerCase (Add newUuid now ty label) L =
     L\<lparr>items := AddScreen_add newUuid now ty label (settings L) (items L)\<rparr>"
| "step getTime toLowerCase (Afrekenen onlyUnpaid search selected newId clock) L =
     Afrekenen_onPress getTime toLowerCase onlyUnpaid search selected newId clock L"
| "step getTime toLowerCase (Betalingen batches) L =
     (case PaymentsScreen_visit batches (items L) (items L, payments L) of
        (its, ps) \<Rightarrow> L\<lparr>items := its, payments := ps\<rparr>)"
| "step getTime toLowerCase (Opslaan cents code) L = L\<lparr>settings := save cents code (settings L)\<rparr>"

inductive reachable :: "(string \<Rightarrow> int) \<Rightarrow> (string \<Rightarrow> string) \<Rightarrow> Ledger \<Rightarrow> bool"
  for getTime and toLowerCase where
  reachable_initial: "reachable getTime toLowerCase initial"
| reachable_step: "reachable getTime toLowerCase L \<Longrightarrow>
                   reachable getTime toLowerCase (step getTime toLowerCase a L)"

text \<open>A clock whose readings are all different: the \<open>k\<close>-th one is \<open>T\<close> followed by \<open>k\<close>.\<close>

definition ticking :: "nat \<Rightarrow> string" where
  "ticking k = CHR ''T'' # digits k"

subsection \<open>The words of the specification\<close>

text \<open>
  The running of a list of actions, and the notions that the specification uses and the
  source does not name: a text that occurs in another one up to the case of its letters,
  and the reading of the column \<open>prijs_cents\<close> of exported rows.
\<close>

fun run ::
  "(string \<Rightarrow> int) \<Rightarrow> (string \<Rightarrow> string) \<Rightarrow> Action list \<Rightarrow> Ledger \<Rightarrow> Ledger" where
  "run getTime toLowerCase [] L = L"
| "run getTime toLowerCase (a # as) L =
     run getTime toLowerCase as (step getTime toLowerCase a L)"


text \<open>\<open>s.split(c)\<close> for a separator of one character.\<close>

fun split_str :: "char \<Rightarrow> string \<Rightarrow> string list" where
  "split_str c [] = [[]]"
| "split_str c (x # xs) =
     (if x = c then [] # split_str c xs
      else (case split_str c xs of [] \<Rightarrow> [[x]] | w # ws \<Rightarrow> (x # w) # ws))"

text \<open>Reading a decimal number: digits, after an optional minus sign.\<close>

fun read_nat_acc :: "nat \<Rightarrow> string \<Rightarrow> nat option" where
  "read_nat_acc a [] = Some a"
| "read_nat_acc a (c # cs) =
     (let n = (of_char c :: nat)
      in if 48 \<le> n \<and> n \<le> 57 then read_nat_acc (10 * a + (n - 48)) cs else None)"

definition read_nat :: "string \<Rightarrow> nat option" where
  "read_nat s = (if s = [] then None else read_nat_acc 0 s)"

definition read_number :: "string \<Rightarrow> int option" where
  "read_number s =
     (case s of
        [] \<Rightarrow> None
      | c # r \<Rightarrow> if c = CHR ''-'' then map_option (\<lambda>n. - int n) (read_nat r)
                 else map_option int (read_nat s))"

text \<open>The second field of a row, read as a number.\<close>

definition price_cents_column :: "string \<Rightarrow> int option" where
  "price_cents_column row =
     (case split_str CHR '','' row of f0 # f1 # fs \<Rightarrow> read_number f1 | _ \<Rightarrow> None)"

fun price_cents_sum :: "string list \<Rightarrow> int option" where
  "price_cents_sum [] = Some 0"
| "price_cents_sum (r # rs) =
     (case price_cents_column r of
        None \<Rightarrow> None
      | Some c \<Rightarrow> map_option (\<lambda>t. c + t) (price_cents_sum rs))"

text \<open>
  The invariants of the data model: \<open>paidAt\<close> and \<open>paymentId\<close> are both present or both
  absent, and a \<open>paymentId\<close> that is present is the identifier of a batch of the batch
  collection.
\<close>

definition both_or_neither :: "Item \<Rightarrow> bool" where
  "both_or_neither it = ((paidAt it = None) = (paymentId it = None))"

definition references_known :: "Item list \<Rightarrow> PaymentBatch list \<Rightarrow> bool" where
  "references_known its ps =
     (\<forall>it \<in> set its. paymentId it \<in> insert None (Some ` id_b ` set ps))"

subsection \<open>Sample data\<close>

text \<open>
  On a text of ASCII characters \<open>String.prototype.toLowerCase\<close> turns the letters \<open>A\<close> to
  \<open>Z\<close> into \<open>a\<close> to \<open>z\<close> and keeps every other character. The samples below are ASCII
  texts, and they are folded with this function.
\<close>

definition ascii_toLowerCase_char :: "char \<Rightarrow> char" where
  "ascii_toLowerCase_char c =
     (let n = (of_char c :: nat) in if 65 \<le> n \<and> n \<le> 90 then char_of (n + 32) else c)"

definition ascii_toLowerCase :: "string \<Rightarrow> string" where
  "ascii_toLowerCase s = map ascii_toLowerCase_char s"

text \<open>Two open items, a paid one, and the batch it was paid in.\<close>

definition koen_bier :: Item where
  "koen_bier = \<lparr>uuid = ''u1'', type = Bier, date = ''D1'', priceCents = 140,
                 userLabel = Some ''Koen'', paidAt = None, paymentId = None\<rparr>"

definition open_fris :: Item where
  "open_fris = \<lparr>uuid = ''u2'', type = Fris, date = ''D2'', priceCents = 70,
                 userLabel = Some [], paidAt = None, paymentId = None\<rparr>"

definition paid_snoep :: Item where
  "paid_snoep = \<lparr>uuid = ''u3'', type = Snoep, date = ''D3'', priceCents = 70,
                  userLabel = Some ''An'', paidAt = Some ''T9'', paymentId = Some ''b0''\<rparr>"

definition batch0 :: PaymentBatch where
  "batch0 = \<lparr>id_b = ''b0'', createdAt = ''T8'', note_b = None\<rparr>"

section \<open>Properties\<close>

text \<open>
  Claim C1. For every settings value, the item that \<open>add\<close> creates has the base price as
  its price when its type is Fris or Snoep and twice the base price when its type is Bier;
  with a base price of 70 a Bier costs 140 and a Fris 70.
\<close>

theorem C1_price_at_creation:
  "priceCents (hd (AddScreen_add u now Fris l s its)) = basePriceCents s
   \<and> priceCents (hd (AddScreen_add u now Snoep l s its)) = basePriceCents s
   \<and> priceCents (hd (AddScreen_add u now Bier l s its)) = 2 * basePriceCents s
   \<and> priceCents (hd (AddScreen_add u now Bier l
        \<lparr>basePriceCents = 70, currencyCode = ''EUR''\<rparr> its)) = 140
   \<and> priceCents (hd (AddScreen_add u now Fris l
        \<lparr>basePriceCents = 70, currencyCode = ''EUR''\<rparr> its)) = 70"
  by (simp add: AddScreen_add_def AddScreen_priceCents_def)

subsection \<open>Settling: \<open>createPayment\<close>\<close>

lemma find_uuid_iff:
  "(find (\<lambda>s. uuid s = u) sel = None) = (u \<notin> uuid ` set sel)"
  by (auto simp: find_None_iff)

lemma updated_nth:
  "i < length its \<Longrightarrow>
   createPayment_updated clock k sel newId its ! i =
     (if uuid (its ! i) \<in> uuid ` set sel
      then (its ! i)\<lparr>paidAt := Some (clock (k + length (filter (\<lambda>it. uuid it \<in> uuid ` set sel) (take i its)))),
                      paymentId := Some newId\<rparr>
      else its ! i)"
proof (induction its arbitrary: k i)
  case Nil
  then show ?case by simp
next
  case (Cons a its)
  show ?case
  proof (cases i)
    case 0
    then show ?thesis by (simp add: find_uuid_iff)
  next
    case (Suc j)
    with Cons.prems have j: "j < length its" by simp
    show ?thesis using Suc Cons.IH[OF j] by (simp add: find_uuid_iff)
  qed
qed

lemma updated_length: "length (createPayment_updated clock k sel newId its) = length its"
  by (induction its arbitrary: k) simp_all

lemma ticking_values: "ticking 0 = ''T0''" "ticking (Suc 0) = ''T1''" "ticking 2 = ''T2''"
  by code_simp+

text \<open>
  Claim C2, as stated, fails where it says that \<open>paidAt\<close> is the timestamp of the batch:
  the batch reads the clock once, and every marked item reads it again. With a clock
  whose readings differ, the item paid in the batch does not carry the batch's
  \<open>createdAt\<close>.
\<close>

theorem C2_counterexample:
  "paidAt (hd (snd (createPayment ''b1'' ticking [koen_bier] None [koen_bier])))
     \<noteq> Some (createdAt (hd (fst (createPayment ''b1'' ticking [koen_bier] None [koen_bier]))))"
  by (simp add: createPayment_def loadJSON_def koen_bier_def ticking_values)

text \<open>
  Claim C2, amended. For every item collection and every selection, settling saves the
  batch collection with a new batch in front (the fresh identifier, the first reading of
  the clock) and returns an item collection of the same length in which exactly the
  items whose \<open>uuid\<close> is the \<open>uuid\<close> of a selected item are updated: \<open>paymentId\<close> becomes the
  identifier of the new batch and \<open>paidAt\<close> a reading of the clock of its own, taken when
  the item is marked (the reading after those of the batch and of the selected items
  before it); every other field of these items and every other item is unchanged.
\<close>

theorem C2_settle_marks_selection:
  "fst (createPayment newId clock sel stored its) =
     \<lparr>id_b = newId, createdAt = clock 0, note_b = None\<rparr> # loadJSON stored []
   \<and> length (snd (createPayment newId clock sel stored its)) = length its
   \<and> (\<forall>i<length its.
        (uuid (its ! i) \<in> uuid ` set sel \<longrightarrow>
           snd (createPayment newId clock sel stored its) ! i =
             (its ! i)\<lparr>paidAt := Some (clock (Suc (length
                           (filter (\<lambda>it. uuid it \<in> uuid ` set sel) (take i its))))),
                        paymentId := Some newId\<rparr>)
        \<and> (uuid (its ! i) \<notin> uuid ` set sel \<longrightarrow>
             snd (createPayment newId clock sel stored its) ! i = its ! i))"
  by (simp add: createPayment_def updated_length updated_nth)

theorem C2_settle_marks_selection_witness:
  "fst (createPayment ''b1'' ticking [koen_bier] None [open_fris, koen_bier, paid_snoep]) =
     [\<lparr>id_b = ''b1'', createdAt = ''T0'', note_b = None\<rparr>]
   \<and> snd (createPayment ''b1'' ticking [koen_bier] None [open_fris, koen_bier, paid_snoep]) ! 0
       = open_fris
   \<and> snd (createPayment ''b1'' ticking [koen_bier] None [open_fris, koen_bier, paid_snoep]) ! 1
       = koen_bier\<lparr>paidAt := Some ''T1'', paymentId := Some ''b1''\<rparr>
   \<and> snd (createPayment ''b1'' ticking [koen_bier] None [open_fris, koen_bier, paid_snoep]) ! 2
       = paid_snoep"
proof -
  let ?its = "[open_fris, koen_bier, paid_snoep]"
  note th = C2_settle_marks_selection [of "''b1''" ticking "[koen_bier]" None ?its]
  from th have all: "\<forall>i<length ?its.
        (uuid (?its ! i) \<in> uuid ` set [koen_bier] \<longrightarrow>
           snd (createPayment ''b1'' ticking [koen_bier] None ?its) ! i =
             (?its ! i)\<lparr>paidAt := Some (ticking (Suc (length
                           (filter (\<lambda>it. uuid it \<in> uuid ` set [koen_bier]) (take i ?its))))),
                        paymentId := Some ''b1''\<rparr>)
        \<and> (uuid (?its ! i) \<notin> uuid ` set [koen_bier] \<longrightarrow>
             snd (createPayment ''b1'' ticking [koen_bier] None ?its) ! i = ?its ! i)"
    by blast
  have a0: "snd (createPayment ''b1'' ticking [koen_bier] None ?its) ! 0 = open_fris"
    using all[rule_format, of 0] by (simp add: koen_bier_def open_fris_def)
  have a1: "snd (createPayment ''b1'' ticking [koen_bier] None ?its) ! 1
       = koen_bier\<lparr>paidAt := Some ''T1'', paymentId := Some ''b1''\<rparr>"
    using all[rule_format, of 1] by (simp add: koen_bier_def open_fris_def ticking_values)
  have a2: "snd (createPayment ''b1'' ticking [koen_bier] None ?its) ! 2 = paid_snoep"
    using all[rule_format, of 2] by (simp add: koen_bier_def paid_snoep_def)
  from th have b: "fst (createPayment ''b1'' ticking [koen_bier] None ?its) =
     [\<lparr>id_b = ''b1'', createdAt = ''T0'', note_b = None\<rparr>]"
    by (simp add: loadJSON_def ticking_values)
  from a0 a1 a2 b show ?thesis by simp
qed

subsection \<open>The pairing of \<open>paidAt\<close> and \<open>paymentId\<close>\<close>

lemma updated_both_or_neither:
  "\<forall>it\<in>set its. both_or_neither it \<Longrightarrow>
   \<forall>it\<in>set (createPayment_updated clock k sel newId its). both_or_neither it"
  by (induction its arbitrary: k) (simp_all add: both_or_neither_def)

lemma remove_both_or_neither:
  "\<forall>it\<in>set its. both_or_neither it \<Longrightarrow>
   \<forall>it\<in>set (fst (remove p its ps)). both_or_neither it"
  by (auto simp: remove_def both_or_neither_def)

lemma visit_both_or_neither:
  "\<forall>it\<in>set mounted. both_or_neither it \<Longrightarrow> \<forall>it\<in>set stored. both_or_neither it \<Longrightarrow>
   \<forall>it\<in>set (fst (PaymentsScreen_visit batches mounted (stored, ps))). both_or_neither it"
proof (induction batches arbitrary: stored ps)
  case Nil
  then show ?case by simp
next
  case (Cons p batches)
  from Cons.prems(1) have "\<forall>it\<in>set (fst (remove p mounted ps)). both_or_neither it"
    by (rule remove_both_or_neither)
  with Cons.prems(1) show ?case
    using Cons.IH [of "fst (remove p mounted ps)" "snd (remove p mounted ps)"]
    by (simp add: remove_def)
qed

lemma Afrekenen_both_or_neither:
  "\<forall>it\<in>set (items L). both_or_neither it \<Longrightarrow>
   \<forall>it\<in>set (items (Afrekenen_onPress gt lc u s m newId clock L)). both_or_neither it"
  by (simp add: Afrekenen_onPress_def Afrekenen_disabled_def Let_def createPayment_def updated_both_or_neither)

lemma step_both_or_neither:
  "\<forall>it\<in>set (items L). both_or_neither it \<Longrightarrow>
   \<forall>it\<in>set (items (step gt lc a L)). both_or_neither it"
proof (cases a)
  case (Add u n ty l)
  assume "\<forall>it\<in>set (items L). both_or_neither it"
  then show ?thesis using Add by (simp add: AddScreen_add_def both_or_neither_def)
next
  case (Afrekenen u s m newId clock)
  assume "\<forall>it\<in>set (items L). both_or_neither it"
  then show ?thesis using Afrekenen by (simp add: Afrekenen_both_or_neither)
next
  case (Betalingen batches)
  assume "\<forall>it\<in>set (items L). both_or_neither it"
  then show ?thesis
    using Betalingen visit_both_or_neither [of "items L" "items L" batches "payments L"]
    by (simp add: split_def)
next
  case (Opslaan c code)
  assume "\<forall>it\<in>set (items L). both_or_neither it"
  then show ?thesis using Opslaan by simp
qed

lemma reachable_both_or_neither:
  "reachable gt lc L \<Longrightarrow> \<forall>it\<in>set (items L). both_or_neither it"
proof (induction rule: reachable.induct)
  case reachable_initial
  show ?case by (simp add: initial_def)
next
  case (reachable_step L a)
  from reachable_step.IH show ?case by (rule step_both_or_neither)
qed

text \<open>
  Claim C3. In every state that the actions reach from the empty ledger, and for every
  action (saving a new item, settling, removing batches, saving the settings), every item
  of the resulting collection has \<open>paidAt\<close> and \<open>paymentId\<close> both present or both absent.
\<close>

theorem C3_paid_fields_paired:
  "reachable gt lc L \<Longrightarrow>
   \<forall>it\<in>set (items (step gt lc a L)).
     (paidAt it = None \<and> paymentId it = None) \<or> (paidAt it \<noteq> None \<and> paymentId it \<noteq> None)"
proof -
  assume "reachable gt lc L"
  then have "\<forall>it\<in>set (items (step gt lc a L)). both_or_neither it"
    by (intro step_both_or_neither reachable_both_or_neither)
  then show ?thesis by (auto simp: both_or_neither_def)
qed

lemma sample_settled:
  "items (step (int \<circ> length) ascii_toLowerCase (Afrekenen True [] [''u1'' \<mapsto> True] ''b1'' ticking)
            (step (int \<circ> length) ascii_toLowerCase (Add ''u1'' ''D1'' Bier ''Koen'') initial))
   = [koen_bier\<lparr>paidAt := Some ''T1'', paymentId := Some ''b1''\<rparr>]"
  by (simp add: initial_def AddScreen_add_def AddScreen_priceCents_def Afrekenen_onPress_def Afrekenen_disabled_def
      OverviewScreen_sorted_def filtered_def selectedItems_def truthy_def createPayment_def
      loadJSON_def ticking_values koen_bier_def)

theorem C3_paid_fields_paired_witness:
  "reachable (int \<circ> length) ascii_toLowerCase (step (int \<circ> length) ascii_toLowerCase (Add ''u1'' ''D1'' Bier ''Koen'') initial)
   \<and> paidAt (hd (items (step (int \<circ> length) ascii_toLowerCase (Afrekenen True [] [''u1'' \<mapsto> True] ''b1'' ticking)
            (step (int \<circ> length) ascii_toLowerCase (Add ''u1'' ''D1'' Bier ''Koen'') initial)))) = Some ''T1''
   \<and> paymentId (hd (items (step (int \<circ> length) ascii_toLowerCase (Afrekenen True [] [''u1'' \<mapsto> True] ''b1'' ticking)
            (step (int \<circ> length) ascii_toLowerCase (Add ''u1'' ''D1'' Bier ''Koen'') initial)))) = Some ''b1''"
proof -
  have r: "reachable (int \<circ> length) ascii_toLowerCase (step (int \<circ> length) ascii_toLowerCase (Add ''u1'' ''D1'' Bier ''Koen'') initial)"
    by (rule reachable_step [OF reachable_initial])
  note th = C3_paid_fields_paired [OF r, of "Afrekenen True [] [''u1'' \<mapsto> True] ''b1'' ticking"]
  from th have "paidAt (koen_bier\<lparr>paidAt := Some ''T1'', paymentId := Some ''b1''\<rparr>) \<noteq> None
      \<and> paymentId (koen_bier\<lparr>paidAt := Some ''T1'', paymentId := Some ''b1''\<rparr>) \<noteq> None"
    unfolding sample_settled by simp
  with r show ?thesis unfolding sample_settled by simp
qed

subsection \<open>Removing a batch\<close>

lemma remove_nth:
  "i < length its \<Longrightarrow>
   fst (remove p its ps) ! i =
     (if paymentId (its ! i) = Some (id_b p)
      then (its ! i)\<lparr>paymentId := None, paidAt := None\<rparr> else its ! i)"
  by (simp add: remove_def)

lemma remove_length: "length (fst (remove p its ps)) = length its"
  by (simp add: remove_def)

lemma remove_payments: "snd (remove p its ps) = filter (\<lambda>x. id_b x \<noteq> id_b p) ps"
  by (simp add: remove_def)

text \<open>
  Claim C4. Settling a selection and then removing the batch that the settlement created
  gives back an item collection of the same length in which every item of the selection
  has \<open>paidAt\<close> and \<open>paymentId\<close> absent and its other fields as before, so that an item
  that was unpaid is exactly as it was; an item outside the selection that did not carry
  the new identifier is as it was too. The batch collection no longer holds a batch with
  the new identifier: it is the one that was stored, without the batches of that
  identifier.
\<close>

theorem C4_settle_then_reverse:
  "hd (fst (createPayment newId clock sel stored its))
     = \<lparr>id_b = newId, createdAt = clock 0, note_b = None\<rparr>
   \<and> length (fst (remove (hd (fst (createPayment newId clock sel stored its)))
                 (snd (createPayment newId clock sel stored its))
                 (fst (createPayment newId clock sel stored its)))) = length its
   \<and> (\<forall>i<length its.
        (uuid (its ! i) \<in> uuid ` set sel \<longrightarrow>
           fst (remove (hd (fst (createPayment newId clock sel stored its)))
                 (snd (createPayment newId clock sel stored its))
                 (fst (createPayment newId clock sel stored its))) ! i
             = (its ! i)\<lparr>paidAt := None, paymentId := None\<rparr>)
        \<and> (uuid (its ! i) \<in> uuid ` set sel \<and> paidAt (its ! i) = None
             \<and> paymentId (its ! i) = None \<longrightarrow>
           fst (remove (hd (fst (createPayment newId clock sel stored its)))
                 (snd (createPayment newId clock sel stored its))
                 (fst (createPayment newId clock sel stored its))) ! i = its ! i)
        \<and> (uuid (its ! i) \<notin> uuid ` set sel \<and> paymentId (its ! i) \<noteq> Some newId \<longrightarrow>
           fst (remove (hd (fst (createPayment newId clock sel stored its)))
                 (snd (createPayment newId clock sel stored its))
                 (fst (createPayment newId clock sel stored its))) ! i = its ! i))
   \<and> newId \<notin> id_b ` set (snd (remove (hd (fst (createPayment newId clock sel stored its)))
                 (snd (createPayment newId clock sel stored its))
                 (fst (createPayment newId clock sel stored its))))
   \<and> snd (remove (hd (fst (createPayment newId clock sel stored its)))
                 (snd (createPayment newId clock sel stored its))
                 (fst (createPayment newId clock sel stored its)))
       = filter (\<lambda>x. id_b x \<noteq> newId) (loadJSON stored [])"
proof -
  let ?b = "\<lparr>id_b = newId, createdAt = clock 0, note_b = None\<rparr>"
  let ?its1 = "createPayment_updated clock (Suc 0) sel newId its"
  have c: "createPayment newId clock sel stored its = (?b # loadJSON stored [], ?its1)"
    by (simp add: createPayment_def)
  have len: "length ?its1 = length its" by (rule updated_length)
  have nth: "fst (remove ?b ?its1 (?b # loadJSON stored [])) ! i =
      (if uuid (its ! i) \<in> uuid ` set sel then (its ! i)\<lparr>paidAt := None, paymentId := None\<rparr>
       else if paymentId (its ! i) = Some newId
            then (its ! i)\<lparr>paymentId := None, paidAt := None\<rparr> else its ! i)"
    if "i < length its" for i
    using that by (simp add: remove_nth updated_length updated_nth)
  have same: "x\<lparr>paidAt := None, paymentId := None\<rparr> = x"
    if "paidAt x = None" "paymentId x = None" for x :: Item
    using that by simp
  have gone: "newId \<notin> id_b ` set (filter (\<lambda>x. id_b x \<noteq> newId) ps)" for ps :: "PaymentBatch list"
    by auto
  show ?thesis
    unfolding c using gone [of "loadJSON stored []"]
    by (simp add: remove_length updated_length nth same remove_payments)
qed

theorem C4_settle_then_reverse_witness:
  "uuid koen_bier \<in> uuid ` set [koen_bier, open_fris]
   \<and> paidAt koen_bier = None \<and> paymentId koen_bier = None
   \<and> fst (remove (hd (fst (createPayment ''b1'' ticking [koen_bier, open_fris] (Some [batch0])
                       [open_fris, koen_bier, paid_snoep])))
               (snd (createPayment ''b1'' ticking [koen_bier, open_fris] (Some [batch0])
                       [open_fris, koen_bier, paid_snoep]))
               (fst (createPayment ''b1'' ticking [koen_bier, open_fris] (Some [batch0])
                       [open_fris, koen_bier, paid_snoep]))) ! 1 = koen_bier
   \<and> uuid paid_snoep \<notin> uuid ` set [koen_bier, open_fris]
   \<and> paymentId paid_snoep \<noteq> Some ''b1''
   \<and> fst (remove (hd (fst (createPayment ''b1'' ticking [koen_bier, open_fris] (Some [batch0])
                       [open_fris, koen_bier, paid_snoep])))
               (snd (createPayment ''b1'' ticking [koen_bier, open_fris] (Some [batch0])
                       [open_fris, koen_bier, paid_snoep]))
               (fst (createPayment ''b1'' ticking [koen_bier, open_fris] (Some [batch0])
                       [open_fris, koen_bier, paid_snoep]))) ! 2 = paid_snoep
   \<and> snd (remove (hd (fst (createPayment ''b1'' ticking [koen_bier, open_fris] (Some [batch0])
                       [open_fris, koen_bier, paid_snoep])))
               (snd (createPayment ''b1'' ticking [koen_bier, open_fris] (Some [batch0])
                       [open_fris, koen_bier, paid_snoep]))
               (fst (createPayment ''b1'' ticking [koen_bier, open_fris] (Some [batch0])
                       [open_fris, koen_bier, paid_snoep]))) = [batch0]"
proof -
  note th = C4_settle_then_reverse [of "''b1''" ticking "[koen_bier, open_fris]" "Some [batch0]"
      "[open_fris, koen_bier, paid_snoep]"]
  note each = th [THEN conjunct2, THEN conjunct2, THEN conjunct1, rule_format]
  have h1: "uuid koen_bier \<in> uuid ` set [koen_bier, open_fris]
      \<and> paidAt koen_bier = None \<and> paymentId koen_bier = None"
    by (simp add: koen_bier_def)
  have h2: "uuid paid_snoep \<notin> uuid ` set [koen_bier, open_fris]
      \<and> paymentId paid_snoep \<noteq> Some ''b1''"
    by (simp add: koen_bier_def open_fris_def paid_snoep_def)
  have a1: "fst (remove (hd (fst (createPayment ''b1'' ticking [koen_bier, open_fris] (Some [batch0])
                       [open_fris, koen_bier, paid_snoep])))
               (snd (createPayment ''b1'' ticking [koen_bier, open_fris] (Some [batch0])
                       [open_fris, koen_bier, paid_snoep]))
               (fst (createPayment ''b1'' ticking [koen_bier, open_fris] (Some [batch0])
                       [open_fris, koen_bier, paid_snoep]))) ! 1 = koen_bier"
    using each [of 1] h1 by simp
  have a2: "fst (remove (hd (fst (createPayment ''b1'' ticking [koen_bier, open_fris] (Some [batch0])
                       [open_fris, koen_bier, paid_snoep])))
               (snd (createPayment ''b1'' ticking [koen_bier, open_fris] (Some [batch0])
                       [open_fris, koen_bier, paid_snoep]))
               (fst (createPayment ''b1'' ticking [koen_bier, open_fris] (Some [batch0])
                       [open_fris, koen_bier, paid_snoep]))) ! 2 = paid_snoep"
    using each [of 2] h2 by simp
  have b: "snd (remove (hd (fst (createPayment ''b1'' ticking [koen_bier, open_fris] (Some [batch0])
                       [open_fris, koen_bier, paid_snoep])))
               (snd (createPayment ''b1'' ticking [koen_bier, open_fris] (Some [batch0])
                       [open_fris, koen_bier, paid_snoep]))
               (fst (createPayment ''b1'' ticking [koen_bier, open_fris] (Some [batch0])
                       [open_fris, koen_bier, paid_snoep]))) = [batch0]"
    using th [THEN conjunct2, THEN conjunct2, THEN conjunct2, THEN conjunct2]
    by (simp add: loadJSON_def batch0_def)
  from h1 h2 a1 a2 b show ?thesis by simp
qed

subsection \<open>Removing a batch that is not in the batch collection\<close>

lemma remove_unreferenced:
  "Some (id_b p) \<notin> paymentId ` set its \<Longrightarrow> fst (remove p its ps) = its"
proof -
  assume "Some (id_b p) \<notin> paymentId ` set its"
  then have "\<forall>it\<in>set its. paymentId it \<noteq> Some (id_b p)"
    by (metis imageI)
  then have "map (\<lambda>it. if paymentId it = Some (id_b p)
               then it\<lparr>paymentId := None, paidAt := None\<rparr> else it) its = its"
    by (intro map_idI) simp
  then show ?thesis by (simp add: remove_def)
qed

lemma remove_absent: "id_b p \<notin> id_b ` set ps \<Longrightarrow> snd (remove p its ps) = ps"
proof -
  assume "id_b p \<notin> id_b ` set ps"
  then have "\<forall>x\<in>set ps. id_b x \<noteq> id_b p"
    by (metis imageI)
  then show ?thesis by (simp add: remove_def)
qed

lemma remove_idem:
  "remove p (fst (remove p its ps)) (snd (remove p its ps)) = remove p its ps"
  by (simp add: remove_def)

lemma known_unreferenced:
  "references_known its ps \<Longrightarrow> b \<notin> id_b ` set ps \<Longrightarrow> Some b \<notin> paymentId ` set its"
  by (auto simp: references_known_def)

text \<open>
  Claim C10, as stated, fails for an item collection in which an item still carries the
  identifier of a batch that the batch collection does not hold: removing that batch
  clears the two paid fields of the item, so the item collection is not returned
  unchanged.
\<close>

theorem C10_counterexample:
  "id_b batch0 \<notin> id_b ` set []
   \<and> fst (remove batch0 [paid_snoep] []) \<noteq> [paid_snoep]"
  by (simp add: remove_def batch0_def paid_snoep_def)

text \<open>
  Claim C10, amended. Removing a batch whose identifier is absent from the batch
  collection leaves the batch collection unchanged, and leaves the item collection
  unchanged as well when no item carries that identifier: so it is when every
  \<open>paymentId\<close> of the item collection is the identifier of a batch of the batch collection,
  and so it is after a first removal of the same batch, hence a second removal changes
  nothing.
\<close>

theorem C10_reverse_absent_batch:
  "(id_b p \<notin> id_b ` set ps \<longrightarrow> snd (remove p its ps) = ps)
   \<and> (id_b p \<notin> id_b ` set ps \<and> Some (id_b p) \<notin> paymentId ` set its \<longrightarrow>
        remove p its ps = (its, ps))
   \<and> (id_b p \<notin> id_b ` set ps \<and> references_known its ps \<longrightarrow> remove p its ps = (its, ps))
   \<and> remove p (fst (remove p its ps)) (snd (remove p its ps)) = remove p its ps"
proof -
  have n: "remove p its ps = (its, ps)"
    if "id_b p \<notin> id_b ` set ps" "Some (id_b p) \<notin> paymentId ` set its"
    using that remove_absent [of p ps its] remove_unreferenced [of p its ps]
    by (simp add: prod_eq_iff)
  have "remove p its ps = (its, ps)"
    if "id_b p \<notin> id_b ` set ps" "references_known its ps"
    using that n known_unreferenced [of its ps "id_b p"] by blast
  with n show ?thesis
    using remove_absent [of p ps its] remove_idem [of p its ps] by blast
qed

theorem C10_reverse_absent_batch_witness:
  "id_b batch0 \<notin> id_b ` set []
   \<and> Some (id_b batch0) \<notin> paymentId ` set [koen_bier]
   \<and> references_known [koen_bier] []
   \<and> remove batch0 [koen_bier] [] = ([koen_bier], [])
   \<and> remove batch0 (fst (remove batch0 [paid_snoep] [batch0]))
        (snd (remove batch0 [paid_snoep] [batch0])) = remove batch0 [paid_snoep] [batch0]"
proof -
  note th = C10_reverse_absent_batch [of batch0 "[]" "[koen_bier]"]
  have h: "id_b batch0 \<notin> id_b ` set [] \<and> Some (id_b batch0) \<notin> paymentId ` set [koen_bier]"
    by (simp add: koen_bier_def batch0_def)
  have k: "references_known [koen_bier] []"
    by (simp add: references_known_def koen_bier_def)
  from th h have a: "remove batch0 [koen_bier] [] = ([koen_bier], [])"
    by blast
  have c: "remove batch0 (fst (remove batch0 [paid_snoep] [batch0]))
        (snd (remove batch0 [paid_snoep] [batch0])) = remove batch0 [paid_snoep] [batch0]"
    using C10_reverse_absent_batch [of batch0 "[batch0]" "[paid_snoep]"]
    by blast
  from h k a c show ?thesis by blast
qed

text \<open>
  The ledger does reach item collections with the identifier of a batch that is gone.
  Two items are settled in two batches, and both batches are removed in one visit of the
  payments screen: the second removal saves the items as they were mounted, cleared of
  the second batch only, and the first item is paid again in a batch that no longer
  exists.
\<close>

lemma sample_two_removals:
  "run (int \<circ> length) ascii_toLowerCase
     [Add ''u1'' ''D1'' Bier ''Koen'', Add ''u2'' ''D2'' Fris [],
      Afrekenen True [] [''u1'' \<mapsto> True] ''b1'' ticking,
      Afrekenen True [] [''u2'' \<mapsto> True] ''b2'' ticking,
      Betalingen [\<lparr>id_b = ''b1'', createdAt = ''T0'', note_b = None\<rparr>,
                  \<lparr>id_b = ''b2'', createdAt = ''T0'', note_b = None\<rparr>]] initial
   = \<lparr>items = [open_fris, koen_bier\<lparr>paidAt := Some ''T1'', paymentId := Some ''b1''\<rparr>],
      payments = [], settings = settings initial\<rparr>"
  by (simp add: initial_def AddScreen_add_def AddScreen_priceCents_def Afrekenen_onPress_def Afrekenen_disabled_def
      OverviewScreen_sorted_def filtered_def selectedItems_def truthy_def createPayment_def
      loadJSON_def remove_def ticking_values koen_bier_def open_fris_def)

subsection \<open>Settling nothing\<close>



subsection \<open>The price of an item is fixed\<close>

lemma updated_uuid_price:
  "map (\<lambda>it. (uuid it, priceCents it)) (createPayment_updated clock k sel newId its)
     = map (\<lambda>it. (uuid it, priceCents it)) its"
  by (induction its arbitrary: k) simp_all

lemma remove_uuid_price:
  "map (\<lambda>it. (uuid it, priceCents it)) (fst (remove p its ps))
     = map (\<lambda>it. (uuid it, priceCents it)) its"
  by (simp add: remove_def comp_def)

lemma visit_uuid_price:
  "map (\<lambda>it. (uuid it, priceCents it)) stored = map (\<lambda>it. (uuid it, priceCents it)) mounted \<Longrightarrow>
   map (\<lambda>it. (uuid it, priceCents it)) (fst (PaymentsScreen_visit batches mounted (stored, ps)))
     = map (\<lambda>it. (uuid it, priceCents it)) mounted"
proof (induction batches arbitrary: stored ps)
  case Nil
  then show ?case by simp
next
  case (Cons p batches)
  show ?case
    using Cons.IH [of "fst (remove p mounted ps)" "snd (remove p mounted ps)"]
      remove_uuid_price [of p mounted ps]
    by (simp add: remove_def)
qed

lemma step_uuid_price:
  "suffix (map (\<lambda>it. (uuid it, priceCents it)) (items L))
          (map (\<lambda>it. (uuid it, priceCents it)) (items (step gt lc a L)))"
proof (cases a)
  case (Add u n ty l)
  then show ?thesis by (simp add: AddScreen_add_def suffix_ConsI)
next
  case (Afrekenen u s m newId clock)
  then show ?thesis
    by (simp add: Afrekenen_onPress_def Afrekenen_disabled_def Let_def createPayment_def updated_uuid_price)
next
  case (Betalingen batches)
  then show ?thesis
    using visit_uuid_price [of "items L" "items L" batches "payments L"]
    by (simp add: split_def)
next
  case (Opslaan c code)
  then show ?thesis by simp
qed

lemma run_uuid_price:
  "suffix (map (\<lambda>it. (uuid it, priceCents it)) (items L))
          (map (\<lambda>it. (uuid it, priceCents it)) (items (run gt lc acts L)))"
proof (induction acts arbitrary: L)
  case Nil
  show ?case by simp
next
  case (Cons a acts)
  have "suffix (map (\<lambda>it. (uuid it, priceCents it)) (items L))
          (map (\<lambda>it. (uuid it, priceCents it)) (items (step gt lc a L)))"
    by (rule step_uuid_price)
  also have "suffix \<dots> (map (\<lambda>it. (uuid it, priceCents it)) (items (run gt lc acts (step gt lc a L))))"
    by (rule Cons.IH)
  finally show ?case by simp
qed

text \<open>
  Claim C5. Saving the settings leaves the item collection as it is, so every existing
  item keeps its \<open>priceCents\<close>; and whatever actions follow the new settings, the existing
  items, each with its \<open>uuid\<close> and its \<open>priceCents\<close>, are still the tail of the collection:
  new items come in front, and no price is computed again.
\<close>

theorem C5_price_locked:
  "items (step gt lc (Opslaan cents code) L) = items L
   \<and> suffix (map (\<lambda>it. (uuid it, priceCents it)) (items L))
        (map (\<lambda>it. (uuid it, priceCents it))
           (items (run gt lc acts (step gt lc (Opslaan cents code) L))))"
proof -
  have "suffix (map (\<lambda>it. (uuid it, priceCents it)) (items (step gt lc (Opslaan cents code) L)))
        (map (\<lambda>it. (uuid it, priceCents it))
           (items (run gt lc acts (step gt lc (Opslaan cents code) L))))"
    by (rule run_uuid_price)
  then show ?thesis by simp
qed

theorem C5_price_locked_witness:
  "items (step (int \<circ> length) ascii_toLowerCase (Opslaan (Some 100) ''USD'')
       \<lparr>items = [koen_bier], payments = [], settings = settings initial\<rparr>) = [koen_bier]
   \<and> basePriceCents (settings (step (int \<circ> length) ascii_toLowerCase (Opslaan (Some 100) ''USD'')
       \<lparr>items = [koen_bier], payments = [], settings = settings initial\<rparr>)) = 100
   \<and> map (\<lambda>it. (uuid it, priceCents it))
        (items (run (int \<circ> length) ascii_toLowerCase [Add ''u4'' ''D4'' Bier ''An'']
           (step (int \<circ> length) ascii_toLowerCase (Opslaan (Some 100) ''USD'')
              \<lparr>items = [koen_bier], payments = [], settings = settings initial\<rparr>)))
      = [(''u4'', 200), (''u1'', 140)]
   \<and> suffix [(''u1'', 140)]
        (map (\<lambda>it. (uuid it, priceCents it))
           (items (run (int \<circ> length) ascii_toLowerCase [Add ''u4'' ''D4'' Bier ''An'']
              (step (int \<circ> length) ascii_toLowerCase (Opslaan (Some 100) ''USD'')
                 \<lparr>items = [koen_bier], payments = [], settings = settings initial\<rparr>))))"
proof -
  note th = C5_price_locked [of "int \<circ> length" ascii_toLowerCase "Some 100" "''USD''"
      "\<lparr>items = [koen_bier], payments = [], settings = settings initial\<rparr>"
      "[Add ''u4'' ''D4'' Bier ''An'']"]
  from th have a: "items (step (int \<circ> length) ascii_toLowerCase (Opslaan (Some 100) ''USD'')
       \<lparr>items = [koen_bier], payments = [], settings = settings initial\<rparr>) = [koen_bier]"
    by simp
  have b: "basePriceCents (settings (step (int \<circ> length) ascii_toLowerCase (Opslaan (Some 100) ''USD'')
       \<lparr>items = [koen_bier], payments = [], settings = settings initial\<rparr>)) = 100"
    by (simp add: save_def)
  have c: "map (\<lambda>it. (uuid it, priceCents it))
        (items (run (int \<circ> length) ascii_toLowerCase [Add ''u4'' ''D4'' Bier ''An'']
           (step (int \<circ> length) ascii_toLowerCase (Opslaan (Some 100) ''USD'')
              \<lparr>items = [koen_bier], payments = [], settings = settings initial\<rparr>)))
      = [(''u4'', 200), (''u1'', 140)]"
    by (simp add: save_def AddScreen_add_def AddScreen_priceCents_def koen_bier_def)
  from th have d: "suffix (map (\<lambda>it. (uuid it, priceCents it)) [koen_bier])
        (map (\<lambda>it. (uuid it, priceCents it))
           (items (run (int \<circ> length) ascii_toLowerCase [Add ''u4'' ''D4'' Bier ''An'']
              (step (int \<circ> length) ascii_toLowerCase (Opslaan (Some 100) ''USD'')
                 \<lparr>items = [koen_bier], payments = [], settings = settings initial\<rparr>))))"
    by simp
  have e: "map (\<lambda>it. (uuid it, priceCents it)) [koen_bier] = [(''u1'', 140)]"
    by (simp add: koen_bier_def)
  from a b c d [unfolded e] show ?thesis by blast
qed

subsection \<open>The overview filter\<close>











subsection \<open>The CSV export\<close>

lemma join_concat: "join sep (x # xs) = x @ concat (map (\<lambda>r. sep @ r) xs)"
  by (induction xs arbitrary: x) simp_all

lemma shareCSV_rows_tl:
  "tl (shareCSV_rows p its) =
     map (\<lambda>it. ItemType_string (type it) @ '','' @ String_number (priceCents it) @ '','' @
               date it @ '','' @ nullish_empty (userLabel it) @ '','' @
               nullish_empty (paidAt it) @ '','' @ id_b p)
       (filter (\<lambda>it. paymentId it = Some (id_b p)) its)"
  by (simp add: shareCSV_rows_def)

text \<open>
  Claim C8, as stated, fails on the header: the exported text does not start with the
  English column names of the claim.
\<close>

theorem C8_counterexample:
  "\<not> prefix ''type,price_cents,date,user,paid_at,batch_id'' (shareCSV batch0 [paid_snoep])"
  by (simp add: shareCSV_def shareCSV_rows_def)

text \<open>
  Claim C8, amended. For every batch and item collection the export is the header row
  \<open>type,prijs_cents,datum,user,betaald_op,batch_id\<close> followed by one data row for each item
  whose \<open>paymentId\<close> is the identifier of the batch, in the order of the collection, every
  row after a line feed. A data row holds the name of the type, the price in cents, the
  date, the label, \<open>paidAt\<close> and the identifier of the batch, in that order and separated
  by commas, with an absent label or \<open>paidAt\<close> as the empty string.
\<close>

theorem C8_csv_rows:
  "hd (shareCSV_rows p its) = ''type,prijs_cents,datum,user,betaald_op,batch_id''
   \<and> shareCSV p its = ''type,prijs_cents,datum,user,betaald_op,batch_id''
        @ concat (map (\<lambda>r. CHR 0x0A # r) (tl (shareCSV_rows p its)))
   \<and> length (tl (shareCSV_rows p its)) = length (filter (\<lambda>it. paymentId it = Some (id_b p)) its)
   \<and> (\<forall>k < length (filter (\<lambda>it. paymentId it = Some (id_b p)) its).
        tl (shareCSV_rows p its) ! k =
          ItemType_string (type (filter (\<lambda>it. paymentId it = Some (id_b p)) its ! k)) @ '','' @
          String_number (priceCents (filter (\<lambda>it. paymentId it = Some (id_b p)) its ! k)) @ '','' @
          date (filter (\<lambda>it. paymentId it = Some (id_b p)) its ! k) @ '','' @
          (case userLabel (filter (\<lambda>it. paymentId it = Some (id_b p)) its ! k) of
             None \<Rightarrow> [] | Some l \<Rightarrow> l) @ '','' @
          (case paidAt (filter (\<lambda>it. paymentId it = Some (id_b p)) its ! k) of
             None \<Rightarrow> [] | Some t \<Rightarrow> t) @ '','' @
          id_b p)"
proof -
  have "shareCSV p its = ''type,prijs_cents,datum,user,betaald_op,batch_id''
        @ concat (map (\<lambda>r. CHR 0x0A # r) (tl (shareCSV_rows p its)))"
    unfolding shareCSV_def by (simp add: shareCSV_rows_def join_concat)
  then show ?thesis
    by (simp add: shareCSV_rows_tl nullish_empty_def) (simp add: shareCSV_rows_def)
qed

lemma sample_String_number: "String_number 70 = ''70''" "String_number 140 = ''140''"
  by code_simp+

theorem C8_csv_rows_witness:
  "shareCSV batch0 [koen_bier, paid_snoep] = ''type,prijs_cents,datum,user,betaald_op,batch_id''
        @ CHR 0x0A # ''Snoep,70,D3,An,T9,b0''"
proof -
  note th = C8_csv_rows [of batch0 "[koen_bier, paid_snoep]"]
  have f: "filter (\<lambda>it. paymentId it = Some (id_b batch0)) [koen_bier, paid_snoep] = [paid_snoep]"
    by (simp add: koen_bier_def paid_snoep_def batch0_def)
  from th [THEN conjunct2, THEN conjunct2, THEN conjunct1]
  have l: "length (tl (shareCSV_rows batch0 [koen_bier, paid_snoep])) = 1"
    unfolding f by simp
  from th [THEN conjunct2, THEN conjunct2, THEN conjunct2, rule_format, of 0]
  have r: "tl (shareCSV_rows batch0 [koen_bier, paid_snoep]) ! 0 = ''Snoep,70,D3,An,T9,b0''"
    unfolding f by (simp add: paid_snoep_def batch0_def sample_String_number)
  from l r have "tl (shareCSV_rows batch0 [koen_bier, paid_snoep]) = [''Snoep,70,D3,An,T9,b0'']"
    by (cases "tl (shareCSV_rows batch0 [koen_bier, paid_snoep])") simp_all
  with th [THEN conjunct2, THEN conjunct1] show ?thesis by simp
qed

subsection \<open>The column of prices and the total of a batch\<close>

lemma of_char_digit_char: "d < 10 \<Longrightarrow> (of_char (digit_char d) :: nat) = 48 + d"
  by (simp add: digit_char_def)

lemma digits_are_digits:
  "c \<in> set (digits n) \<Longrightarrow> 48 \<le> (of_char c :: nat) \<and> (of_char c :: nat) \<le> 57"
proof (induction n arbitrary: c rule: digits.induct)
  case (1 n)
  show ?case
  proof (cases "n < 10")
    case True
    with "1.prems" have "c = digit_char n" by (simp add: digits.simps)
    with True show ?thesis by (simp add: of_char_digit_char)
  next
    case False
    with "1.prems" have "c \<in> set (digits (n div 10)) \<or> c = digit_char (n mod 10)"
      by (subst (asm) digits.simps) auto
    then show ?thesis
    proof
      assume "c \<in> set (digits (n div 10))"
      with False show ?thesis by (rule "1.IH")
    next
      assume "c = digit_char (n mod 10)"
      then show ?thesis by (simp add: of_char_digit_char)
    qed
  qed
qed

lemma digits_not_Nil: "digits n \<noteq> []"
  by (subst digits.simps) simp

lemma read_nat_acc_append:
  "read_nat_acc a (s @ t) =
     (case read_nat_acc a s of None \<Rightarrow> None | Some b \<Rightarrow> read_nat_acc b t)"
  by (induction s arbitrary: a) (simp_all add: Let_def)

lemma read_nat_acc_digit: "d < 10 \<Longrightarrow> read_nat_acc a [digit_char d] = Some (10 * a + d)"
  by (simp add: of_char_digit_char Let_def)

lemma read_nat_acc_digits: "read_nat_acc 0 (digits n) = Some n"
proof (induction n rule: digits.induct)
  case (1 n)
  show ?case
  proof (cases "n < 10")
    case True
    then show ?thesis
      by (subst digits.simps) (simp add: read_nat_acc_digit del: read_nat_acc.simps)
  next
    case False
    then have "read_nat_acc 0 (digits (n div 10)) = Some (n div 10)" by (rule "1.IH")
    with False show ?thesis
      by (subst digits.simps)
        (simp add: read_nat_acc_append read_nat_acc_digit del: read_nat_acc.simps)
  qed
qed

lemma read_nat_digits: "read_nat (digits n) = Some n"
  by (simp add: read_nat_def digits_not_Nil read_nat_acc_digits)

lemma read_number_String_number: "read_number (String_number n) = Some n"
proof (cases "n < 0")
  case True
  then show ?thesis by (simp add: read_number_def String_number_def read_nat_digits)
next
  case False
  obtain c r where cr: "digits (nat n) = c # r"
    using digits_not_Nil [of "nat n"] by (cases "digits (nat n)") auto
  then have "c \<in> set (digits (nat n))" by simp
  then have "48 \<le> (of_char c :: nat)" using digits_are_digits by blast
  then have "c \<noteq> CHR ''-''" by auto
  with False cr read_nat_digits [of "nat n"] show ?thesis
    by (simp add: read_number_def String_number_def)
qed

lemma comma_not_in_digits: "CHR '','' \<notin> set (digits n)"
  using digits_are_digits [of "CHR '',''" n] by auto

lemma comma_not_in_String_number: "CHR '','' \<notin> set (String_number n)"
  by (simp add: String_number_def comma_not_in_digits)

lemma comma_not_in_ItemType_string: "CHR '','' \<notin> set (ItemType_string ty)"
  by (cases ty) simp_all

lemma split_str_not_Nil: "split_str c s \<noteq> []"
  by (induction s) (simp_all split: list.splits)

lemma split_str_field: "c \<notin> set a \<Longrightarrow> split_str c (a @ c # rest) = a # split_str c rest"
  by (induction a) auto

lemma split_str_single: "c \<notin> set a \<Longrightarrow> split_str c a = [a]"
  by (induction a) auto

lemma price_cents_column_row:
  "price_cents_column (ItemType_string ty @ CHR '','' # String_number n @ CHR '','' # rest) = Some n"
proof -
  obtain f fs where "split_str CHR '','' rest = f # fs"
    using split_str_not_Nil [of "CHR '',''" rest] by (cases "split_str CHR '','' rest") auto
  then show ?thesis
    by (simp add: price_cents_column_def split_str_field comma_not_in_ItemType_string
        comma_not_in_String_number read_number_String_number)
qed

lemma foldl_priceCents: "foldl (\<lambda>a b. a + priceCents b) a xs = a + sum_list (map priceCents xs)"
  by (induction xs arbitrary: a) simp_all

lemma price_cents_sum_rows:
  "price_cents_sum (map (\<lambda>it. ItemType_string (type it) @ CHR '','' #
        String_number (priceCents it) @ CHR '','' # rest it) xs)
     = Some (sum_list (map priceCents xs))"
  by (induction xs) (simp_all add: price_cents_column_row)

lemma split_str_join:
  "rows \<noteq> [] \<Longrightarrow> \<forall>r \<in> set rows. c \<notin> set r \<Longrightarrow> split_str c (join [c] rows) = rows"
proof (induction "[c]" rows rule: join.induct)
  case 1
  then show ?case by simp
next
  case (2 x)
  then show ?case by (simp add: split_str_single)
next
  case (3 x y ys)
  then show ?case by (simp add: split_str_field)
qed

lemma line_feed_not_in_String_number: "CHR 0x0A \<notin> set (String_number n)"
  using digits_are_digits [of "CHR 0x0A"] by (auto simp: String_number_def)

lemma line_feed_not_in_ItemType_string: "CHR 0x0A \<notin> set (ItemType_string ty)"
  by (cases ty) simp_all

lemma split_str_shareCSV:
  assumes "CHR 0x0A \<notin> set (id_b p)"
    and "\<forall>it \<in> set its. paymentId it = Some (id_b p) \<longrightarrow>
           CHR 0x0A \<notin> set (date it) \<union> set (nullish_empty (userLabel it))
                        \<union> set (nullish_empty (paidAt it))"
  shows "split_str (CHR 0x0A) (shareCSV p its) = shareCSV_rows p its"
  unfolding shareCSV_def
proof (rule split_str_join)
  show "shareCSV_rows p its \<noteq> []" by (simp add: shareCSV_rows_def)
  show "\<forall>r \<in> set (shareCSV_rows p its). CHR 0x0A \<notin> set r"
    using assms
    by (auto simp: shareCSV_rows_def line_feed_not_in_String_number
        line_feed_not_in_ItemType_string)
qed

text \<open>
  Claim C9. For every batch and item collection, the numbers in the column of prices of
  the data rows that \<open>shareCSV\<close> builds add up to \<open>totalFor\<close> of the batch, the sum of
  \<open>priceCents\<close> over the items whose \<open>paymentId\<close> is the identifier of the batch. The same
  holds for the rows read back from the exported text, when no text field of an exported
  item holds a line feed.
\<close>

theorem C9_csv_sum_is_total:
  "price_cents_sum (tl (shareCSV_rows p its)) = Some (totalFor p its)
   \<and> totalFor p its
       = sum_list (map priceCents (filter (\<lambda>it. paymentId it = Some (id_b p)) its))
   \<and> (CHR 0x0A \<notin> set (id_b p)
        \<and> (\<forall>it \<in> set its. paymentId it = Some (id_b p) \<longrightarrow>
              CHR 0x0A \<notin> set (date it) \<union> set (nullish_empty (userLabel it))
                           \<union> set (nullish_empty (paidAt it)))
      \<longrightarrow> price_cents_sum (tl (split_str (CHR 0x0A) (shareCSV p its)))
            = Some (totalFor p its))"
proof -
  have t: "totalFor p its
       = sum_list (map priceCents (filter (\<lambda>it. paymentId it = Some (id_b p)) its))"
    by (simp add: totalFor_def foldl_priceCents)
  have rows: "tl (shareCSV_rows p its) =
      map (\<lambda>it. ItemType_string (type it) @ CHR '','' # String_number (priceCents it) @ CHR '','' #
                (date it @ '','' @ nullish_empty (userLabel it) @ '','' @
                 nullish_empty (paidAt it) @ '','' @ id_b p))
        (filter (\<lambda>it. paymentId it = Some (id_b p)) its)"
    by (simp add: shareCSV_rows_def)
  have r: "price_cents_sum (tl (shareCSV_rows p its)) = Some (totalFor p its)"
    unfolding rows t by (rule price_cents_sum_rows)
  with t show ?thesis
    by (simp add: split_str_shareCSV)
qed

lemma sample_totalFor: "totalFor batch0 [koen_bier, paid_snoep] = 70"
  by (simp add: totalFor_def koen_bier_def paid_snoep_def batch0_def)

theorem C9_csv_sum_is_total_witness:
  "CHR 0x0A \<notin> set (id_b batch0)
   \<and> CHR 0x0A \<notin> set (date paid_snoep)
   \<and> CHR 0x0A \<notin> set (nullish_empty (userLabel paid_snoep))
   \<and> CHR 0x0A \<notin> set (nullish_empty (paidAt paid_snoep))
   \<and> paymentId koen_bier \<noteq> Some (id_b batch0)
   \<and> price_cents_sum (tl (split_str (CHR 0x0A) (shareCSV batch0 [koen_bier, paid_snoep]))) = Some 70
   \<and> price_cents_sum (tl (shareCSV_rows batch0 [koen_bier, paid_snoep])) = Some 70
   \<and> totalFor batch0 [koen_bier, paid_snoep] = 70"
proof -
  note th = C9_csv_sum_is_total [of batch0 "[koen_bier, paid_snoep]"]
  have h: "CHR 0x0A \<notin> set (id_b batch0)
   \<and> CHR 0x0A \<notin> set (date paid_snoep)
   \<and> CHR 0x0A \<notin> set (nullish_empty (userLabel paid_snoep))
   \<and> CHR 0x0A \<notin> set (nullish_empty (paidAt paid_snoep))
   \<and> paymentId koen_bier \<noteq> Some (id_b batch0)"
    by (simp add: batch0_def paid_snoep_def koen_bier_def nullish_empty_def)
  then have "\<forall>it \<in> set [koen_bier, paid_snoep]. paymentId it = Some (id_b batch0) \<longrightarrow>
              CHR 0x0A \<notin> set (date it) \<union> set (nullish_empty (userLabel it))
                           \<union> set (nullish_empty (paidAt it))"
    by simp
  with th h have a: "price_cents_sum (tl (split_str (CHR 0x0A)
        (shareCSV batch0 [koen_bier, paid_snoep]))) = Some (totalFor batch0 [koen_bier, paid_snoep])"
    by blast
  from th have b: "price_cents_sum (tl (shareCSV_rows batch0 [koen_bier, paid_snoep]))
      = Some (totalFor batch0 [koen_bier, paid_snoep])"
    by blast
  from h a b show ?thesis unfolding sample_totalFor by blast
qed

end
